theory Spec2Isabelle
  imports Complex_Main "HOL-Library.Sublist" "HOL-Library.Multiset" "HOL-Library.Word"
begin

section \<open>Data model of dashboard.py\<close>

text \<open>
  A pandas cell, as the CSV loader produces it: a string, a number, or the missing
  value NaN. Numbers are read here as exact reals: the wrap-around of int64, the
  rounding of float64 and its infinities are outside this reading, which serves the
  statements that do not rest on the value of a product or a sum. The product of
  line 33 is modelled with machine numbers in a section of its own below. The same
  type carries the scalars the KPI section computes (a sum is a number, the mean of
  nothing is NaN).
\<close>

datatype cell = Str string | Num real | NaN

datatype py_error = KeyError | TypeError | IndexError

type_synonym row = "string \<Rightarrow> cell"

text \<open>
  A DataFrame: the column labels in order, and the rows in index order. A row gives a
  cell for every label; what it holds at a label outside \<open>columns\<close> is never read,
  since every read goes through a membership test on \<open>columns\<close> first.
\<close>

record frame =
  columns :: "string list"
  rows :: "row list"

text \<open>\<^verbatim>\<open>pd.DataFrame()\<close>: no columns, no rows.\<close>

definition DataFrame :: frame where
  "DataFrame = \<lparr>columns = [], rows = []\<rparr>"

text \<open>\<^verbatim>\<open>df.empty\<close>: some axis has length zero.\<close>

definition empty_df :: "frame \<Rightarrow> bool" where
  "empty_df df = (columns df = [] \<or> rows df = [])"

text \<open>\<^verbatim>\<open>df[c]\<close>: the column as a series, KeyError when the label is absent.\<close>

definition getitem :: "frame \<Rightarrow> string \<Rightarrow> py_error + cell list" where
  "getitem df c =
     (if c \<in> set (columns df) then Inr (map (\<lambda>r. r c) (rows df)) else Inl KeyError)"

section \<open>Ensure Columns Exist and numeric coercion (lines 21-30)\<close>

definition expected_cols :: "string list" where
  "expected_cols =
     [''Product ID'', ''Product Position'', ''Promotion'', ''Product Category'',
      ''Seasonal'', ''Sales Volume'', ''brand'', ''url'', ''name'', ''description'',
      ''price'', ''currency'', ''terms'', ''section'', ''season'', ''material'', ''origin'']"

text \<open>
  One turn of the loop \<^verbatim>\<open>for c in expected_cols: if c not in df.columns: df[c] = ""\<close>:
  a new column is appended and holds the empty string in every row.
\<close>

definition ensure_col :: "frame \<Rightarrow> string \<Rightarrow> frame" where
  "ensure_col df c =
     (if c \<in> set (columns df) then df
      else \<lparr>columns = columns df @ [c], rows = map (\<lambda>r. r(c := Str [])) (rows df)\<rparr>)"

definition ensure_cols :: "frame \<Rightarrow> frame" where
  "ensure_cols df = foldl ensure_col df expected_cols"

text \<open>
  \<^verbatim>\<open>pd.to_numeric(..., errors="coerce")\<close> on one cell. How pandas reads a string as a
  number is the library's business and is a parameter here: \<open>parse s = None\<close> when the
  string yields no number (it does not parse, or it spells NaN). A number stays, a
  missing value stays missing, a string that yields no number becomes NaN.
\<close>

definition to_numeric :: "(string \<Rightarrow> real option) \<Rightarrow> cell \<Rightarrow> cell" where
  "to_numeric parse c =
     (case c of
        Str s \<Rightarrow> (case parse s of Some x \<Rightarrow> Num x | None \<Rightarrow> NaN)
      | Num x \<Rightarrow> Num x
      | NaN \<Rightarrow> NaN)"

text \<open>\<^verbatim>\<open>.fillna(0)\<close> on one cell.\<close>

definition fillna0 :: "cell \<Rightarrow> cell" where
  "fillna0 c = (case c of NaN \<Rightarrow> Num 0 | _ \<Rightarrow> c)"

text \<open>
  \<^verbatim>\<open>df[c] = pd.to_numeric(df[c], errors="coerce").fillna(0)\<close>: the read of \<open>df[c]\<close>
  raises KeyError on an absent label.
\<close>

definition coerce_column :: "(string \<Rightarrow> real option) \<Rightarrow> string \<Rightarrow> frame \<Rightarrow> py_error + frame" where
  "coerce_column parse c df =
     (if c \<in> set (columns df)
      then Inr (df\<lparr>rows := map (\<lambda>r. r(c := fillna0 (to_numeric parse (r c)))) (rows df)\<rparr>)
      else Inl KeyError)"

text \<open>Lines 25-30 as one step: the Schema Normalizer.\<close>

definition normalize :: "(string \<Rightarrow> real option) \<Rightarrow> frame \<Rightarrow> py_error + frame" where
  "normalize parse df =
     (case coerce_column parse ''Sales Volume'' (ensure_cols df) of
        Inl e \<Rightarrow> Inl e
      | Inr d \<Rightarrow> coerce_column parse ''price'' d)"

section \<open>Filter and derive (lines 32-33)\<close>

definition is_Str :: "cell \<Rightarrow> bool" where
  "is_Str c = (case c of Str _ \<Rightarrow> True | _ \<Rightarrow> False)"

text \<open>\<^verbatim>\<open>x > 0\<close> on a numeric cell; NaN compares false.\<close>

definition gt0 :: "cell \<Rightarrow> bool" where
  "gt0 c = (case c of Num x \<Rightarrow> 0 < x | _ \<Rightarrow> False)"

text \<open>
  \<^verbatim>\<open>x * y\<close> on numeric cells, as the exact product; NaN propagates. The machine
  product of the two columns is \<open>mul_m\<close> below.
\<close>

definition mul :: "cell \<Rightarrow> cell \<Rightarrow> cell" where
  "mul a b = (case (a, b) of (Num x, Num y) \<Rightarrow> Num (x * y) | _ \<Rightarrow> NaN)"

text \<open>
  \<^verbatim>\<open>df[(df["Sales Volume"] > 0) & (df["price"] > 0)]\<close>: each column is read (KeyError
  when absent) and compared with 0 (TypeError on a string cell), the left operand
  first; the rows whose mask is true are kept, in index order, in a new frame.
\<close>

definition select_positive :: "frame \<Rightarrow> py_error + frame" where
  "select_positive df =
     (if ''Sales Volume'' \<notin> set (columns df) then Inl KeyError
      else if list_ex (\<lambda>r. is_Str (r ''Sales Volume'')) (rows df) then Inl TypeError
      else if ''price'' \<notin> set (columns df) then Inl KeyError
      else if list_ex (\<lambda>r. is_Str (r ''price'')) (rows df) then Inl TypeError
      else Inr (df\<lparr>rows := filter (\<lambda>r. gt0 (r ''Sales Volume'') \<and> gt0 (r ''price'')) (rows df)\<rparr>))"

text \<open>
  \<^verbatim>\<open>d["Revenue"] = d["Sales Volume"] * d["price"]\<close>: both columns are read, then
  multiplied; an existing Revenue column is overwritten in place, a new one is
  appended. The program runs this line on the result of the line before only, which
  holds no string in either column; a string operand is reported as TypeError.
\<close>

definition set_revenue :: "frame \<Rightarrow> py_error + frame" where
  "set_revenue d =
     (if ''Sales Volume'' \<notin> set (columns d) \<or> ''price'' \<notin> set (columns d) then Inl KeyError
      else if list_ex (\<lambda>r. is_Str (r ''Sales Volume'') \<or> is_Str (r ''price'')) (rows d)
      then Inl TypeError
      else Inr \<lparr>columns = (if ''Revenue'' \<in> set (columns d) then columns d
                             else columns d @ [''Revenue'']),
                rows = map (\<lambda>r. r(''Revenue'' := mul (r ''Sales Volume'') (r ''price''))) (rows d)\<rparr>)"

text \<open>The value bound to \<^verbatim>\<open>df_clean\<close> after lines 32-33.\<close>

definition df_clean :: "frame \<Rightarrow> py_error + frame" where
  "df_clean df = (case select_positive df of Inl e \<Rightarrow> Inl e | Inr d \<Rightarrow> set_revenue d)"

text \<open>Lines 25-33: from the loaded table to the clean table.\<close>

definition load_clean :: "(string \<Rightarrow> real option) \<Rightarrow> frame \<Rightarrow> py_error + frame" where
  "load_clean parse raw = (case normalize parse raw of Inl e \<Rightarrow> Inl e | Inr df \<Rightarrow> df_clean df)"

section \<open>KPI calculations (lines 38-41)\<close>

text \<open>The number a numeric cell stands for in a sum; a missing value adds nothing.\<close>

definition num0 :: "cell \<Rightarrow> real" where
  "num0 c = (case c of Num x \<Rightarrow> x | _ \<Rightarrow> 0)"

text \<open>
  \<^verbatim>\<open>Series.sum()\<close> of a numeric column: missing values are skipped and the sum of
  nothing is 0. The columns summed here are numeric after coercion; a string cell is
  reported as TypeError.
\<close>

definition series_sum :: "cell list \<Rightarrow> py_error + cell" where
  "series_sum cs =
     (if list_ex is_Str cs then Inl TypeError else Inr (Num (sum_list (map num0 cs))))"

text \<open>
  \<^verbatim>\<open>Series.mean()\<close>: missing values are skipped; the mean of nothing is NaN (pandas
  divides 0 by a count of 0 and returns the float NaN, it raises nothing).
\<close>

definition series_mean :: "cell list \<Rightarrow> py_error + cell" where
  "series_mean cs =
     (if list_ex is_Str cs then Inl TypeError
      else (let xs = filter (\<lambda>c. c \<noteq> NaN) cs
            in if xs = [] then Inr NaN
               else Inr (Num (sum_list (map num0 xs) / real (length xs)))))"

text \<open>\<^verbatim>\<open>Series.nunique()\<close>: the number of distinct values, missing ones not counted.\<close>

definition nunique :: "cell list \<Rightarrow> nat" where
  "nunique cs = length (remdups (filter (\<lambda>c. c \<noteq> NaN) cs))"

record kpis =
  total_revenue :: cell
  total_units :: cell
  avg_price :: cell
  unique_products :: nat

definition kpi_calc :: "frame \<Rightarrow> py_error + kpis" where
  "kpi_calc d =
     (case getitem d ''Revenue'' of Inl e \<Rightarrow> Inl e | Inr rv \<Rightarrow>
     (case series_sum rv of Inl e \<Rightarrow> Inl e | Inr tr \<Rightarrow>
     (case getitem d ''Sales Volume'' of Inl e \<Rightarrow> Inl e | Inr sv \<Rightarrow>
     (case series_sum sv of Inl e \<Rightarrow> Inl e | Inr tu \<Rightarrow>
     (case getitem d ''price'' of Inl e \<Rightarrow> Inl e | Inr pr \<Rightarrow>
     (case series_mean pr of Inl e \<Rightarrow> Inl e | Inr ap \<Rightarrow>
     (case getitem d ''Product ID'' of Inl e \<Rightarrow> Inl e | Inr ids \<Rightarrow>
        Inr \<lparr>total_revenue = tr, total_units = tu, avg_price = ap,
             unique_products = nunique ids\<rparr>)))))))"

section \<open>Aggregations for charts (lines 46-56)\<close>

text \<open>
  \<^verbatim>\<open>groupby\<close> orders the groups by key (\<open>sort=True\<close>): numbers by value, strings by
  code point, numbers before strings in a column that mixes both.
\<close>

fun str_le :: "string \<Rightarrow> string \<Rightarrow> bool" where
  "str_le [] ys = True"
| "str_le (x # xs) [] = False"
| "str_le (x # xs) (y # ys) =
     ((of_char x :: nat) < of_char y \<or> (x = y \<and> str_le xs ys))"

fun cell_le :: "cell \<Rightarrow> cell \<Rightarrow> bool" where
  "cell_le (Num x) (Num y) = (x \<le> y)"
| "cell_le (Num x) (Str t) = True"
| "cell_le (Str s) (Num y) = False"
| "cell_le (Str s) (Str t) = str_le s t"
| "cell_le NaN b = (b = NaN)"
| "cell_le a NaN = True"

fun insort_cell :: "cell \<Rightarrow> cell list \<Rightarrow> cell list" where
  "insort_cell k [] = [k]"
| "insort_cell k (x # xs) = (if cell_le k x then k # x # xs else x # insort_cell k xs)"

definition sort_keys :: "cell list \<Rightarrow> cell list" where
  "sort_keys ks = foldr insort_cell ks []"

text \<open>
  The group keys of \<^verbatim>\<open>df.groupby(col)\<close>: the distinct values of the column, rows with
  a missing key dropped (\<open>dropna=True\<close>, the default), in key order.
\<close>

definition group_keys :: "string \<Rightarrow> row list \<Rightarrow> cell list" where
  "group_keys col rs = sort_keys (remdups (filter (\<lambda>k. k \<noteq> NaN) (map (\<lambda>r. r col) rs)))"

text \<open>\<^verbatim>\<open>["Sales Volume"].sum()\<close> of one group.\<close>

definition group_sum :: "string \<Rightarrow> row list \<Rightarrow> cell \<Rightarrow> real" where
  "group_sum col rs k =
     sum_list (map (\<lambda>r. num0 (r ''Sales Volume'')) (filter (\<lambda>r. r col = k) rs))"

definition groupby_sum :: "string \<Rightarrow> row list \<Rightarrow> (cell \<times> real) list" where
  "groupby_sum col rs = map (\<lambda>k. (k, group_sum col rs k)) (group_keys col rs)"

text \<open>
  \<^verbatim>\<open>.sort_values("Sales Volume", ascending=False)\<close>. Groups with equal sums keep their
  order here. The default sort of pandas fixes no order among them and may give
  another; no statement below rests on the order of equal sums.
\<close>

definition sort_values_desc :: "(cell \<times> real) list \<Rightarrow> (cell \<times> real) list" where
  "sort_values_desc ps = sort_key (\<lambda>p. - snd p) ps"

text \<open>
  The frame a grouped sum returns with \<open>as_index=False\<close>: the key column, then the
  sums under Sales Volume (one column only when the key is Sales Volume itself).
\<close>

definition agg_frame :: "string \<Rightarrow> (cell \<times> real) list \<Rightarrow> frame" where
  "agg_frame col ps =
     \<lparr>columns = (if col = ''Sales Volume'' then [col] else [col, ''Sales Volume'']),
      rows = map (\<lambda>p. (\<lambda>c. NaN)(col := fst p, ''Sales Volume'' := Num (snd p))) ps\<rparr>"

text \<open>
  \<^verbatim>\<open>df.groupby(col, as_index=False)["Sales Volume"].sum().sort_values(...)\<close>: KeyError
  when either column is absent. The program sums the clean table only, whose Sales
  Volume holds numbers; a string cell there is reported as TypeError.
\<close>

definition grouped :: "frame \<Rightarrow> string \<Rightarrow> py_error + frame" where
  "grouped df col =
     (if col \<notin> set (columns df) \<or> ''Sales Volume'' \<notin> set (columns df) then Inl KeyError
      else if list_ex (\<lambda>r. is_Str (r ''Sales Volume'')) (rows df) then Inl TypeError
      else Inr (agg_frame col (sort_values_desc (groupby_sum col (rows df)))))"

definition g :: "frame \<Rightarrow> string \<Rightarrow> py_error + frame" where
  "g df col = (if col \<notin> set (columns df) \<or> empty_df df then Inr DataFrame else grouped df col)"

text \<open>\<^verbatim>\<open>.head(n)\<close>: the first n rows, all of them when there are fewer.\<close>

definition head :: "nat \<Rightarrow> frame \<Rightarrow> frame" where
  "head n df = df\<lparr>rows := take n (rows df)\<rparr>"

text \<open>Line 56 with the literal 10 as a parameter; it has no guard for an empty table.\<close>

definition top_n :: "nat \<Rightarrow> frame \<Rightarrow> py_error + frame" where
  "top_n n df = (case grouped df ''name'' of Inl e \<Rightarrow> Inl e | Inr t \<Rightarrow> Inr (head n t))"

definition top10 :: "frame \<Rightarrow> py_error + frame" where
  "top10 df = top_n 10 df"

text \<open>The Sales Volume column of a table, as numbers.\<close>

definition volumes :: "frame \<Rightarrow> real list" where
  "volumes t = map (\<lambda>r. num0 (r ''Sales Volume'')) (rows t)"

section \<open>Insights page and routing (lines 160-180, 205-214)\<close>

text \<open>\<^verbatim>\<open>t.iloc[0][c]\<close>: IndexError on a table with no rows.\<close>

definition iloc0 :: "frame \<Rightarrow> string \<Rightarrow> py_error + cell" where
  "iloc0 t c =
     (case rows t of
        [] \<Rightarrow> Inl IndexError
      | r # rs \<Rightarrow> if c \<in> set (columns t) then Inr (r c) else Inl KeyError)"

text \<open>
  One entry of the \<^verbatim>\<open>insights\<close> list: the formatted sentence when the table is not
  empty, the empty string otherwise. \<open>fmt\<close> is Python's formatting of a cell value
  inside an f-string.
\<close>

definition insight :: "(cell \<Rightarrow> string) \<Rightarrow> string \<Rightarrow> string \<Rightarrow> frame \<Rightarrow> string \<Rightarrow> py_error + string" where
  "insight fmt pre suf t c =
     (if \<not> empty_df t
      then (case iloc0 t c of Inl e \<Rightarrow> Inl e | Inr v \<Rightarrow> Inr (pre @ fmt v @ suf))
      else Inr [])"

definition position_insight :: "(cell \<Rightarrow> string) \<Rightarrow> frame \<Rightarrow> py_error + string" where
  "position_insight fmt t =
     insight fmt (''Most sales come from the '' @ [CHR 0x27]) ([CHR 0x27] @ '' position.'')
       t ''Product Position''"

definition season_insight :: "(cell \<Rightarrow> string) \<Rightarrow> frame \<Rightarrow> py_error + string" where
  "season_insight fmt t = insight fmt ''Top season: '' [] t ''season''"

definition origin_insight :: "(cell \<Rightarrow> string) \<Rightarrow> frame \<Rightarrow> py_error + string" where
  "origin_insight fmt t = insight fmt ''Strongest region: '' [] t ''origin''"

text \<open>The items of the Insights list: \<^verbatim>\<open>[html.Li(i) for i in insights if i != ""]\<close>.\<close>

definition page_insights :: "(cell \<Rightarrow> string) \<Rightarrow> frame \<Rightarrow> frame \<Rightarrow> frame \<Rightarrow> py_error + string list" where
  "page_insights fmt by_position by_season by_origin =
     (case position_insight fmt by_position of Inl e \<Rightarrow> Inl e | Inr a \<Rightarrow>
     (case season_insight fmt by_season of Inl e \<Rightarrow> Inl e | Inr b \<Rightarrow>
     (case origin_insight fmt by_origin of Inl e \<Rightarrow> Inl e | Inr c \<Rightarrow>
        Inr (filter (\<lambda>i. i \<noteq> []) [a, b, c]))))"

datatype page = Overview | Details | Advanced | Insights

definition change_page :: "string \<Rightarrow> page" where
  "change_page path =
     (if path = ''/details'' then Details
      else if path = ''/advanced'' then Advanced
      else if path = ''/insights'' then Insights
      else Overview)"

section \<open>Lines 32-33 on a store of objects\<close>

text \<open>
  The objects of the program in allocation order; a variable holds the index of a live
  object. Boolean indexing allocates a new frame, \<^verbatim>\<open>.copy()\<close> another, the name
  \<^verbatim>\<open>df_clean\<close> is bound to the copy, and the assignment to \<^verbatim>\<open>df_clean["Revenue"]\<close>
  updates the copy in place. The result is the new store and the index bound to
  \<^verbatim>\<open>df_clean\<close>.
\<close>

definition exec_filter_derive :: "frame list \<Rightarrow> nat \<Rightarrow> py_error + (frame list \<times> nat)" where
  "exec_filter_derive heap df =
     (case select_positive (heap ! df) of
        Inl e \<Rightarrow> Inl e
      | Inr sel \<Rightarrow>
          (let heap1 = heap @ [sel];
               heap2 = heap1 @ [heap1 ! length heap];
               a = length heap1
           in case set_revenue (heap2 ! a) of
                Inl e \<Rightarrow> Inl e
              | Inr d \<Rightarrow> Inr (heap2[a := d], a)))"

section \<open>Auxiliary definitions and example inputs\<close>

text \<open>Both coercions of lines 29-30 on the rows of a table.\<close>

definition coerce_rows :: "(string \<Rightarrow> real option) \<Rightarrow> row list \<Rightarrow> row list" where
  "coerce_rows parse rs =
     map (\<lambda>r. r(''Sales Volume'' := fillna0 (to_numeric parse (r ''Sales Volume'')),
               ''price'' := fillna0 (to_numeric parse (r ''price'')))) rs"

text \<open>
  A reading of numerals that knows the strings of the examples only; every other
  string, \<open>''bad''\<close> among them, yields no number.
\<close>

definition example_parse :: "string \<Rightarrow> real option" where
  "example_parse =
     map_of [(''10'', 10), (''2'', 2), (''0'', 0), (''5'', 5), (''3'', 3), (''4'', 4), (''1'', 1)]"

text \<open>The three input rows of the end-to-end example of the specification.\<close>

definition example_raw :: frame where
  "example_raw =
     \<lparr>columns = [''Sales Volume'', ''price'', ''Product Position''],
      rows =
        [(\<lambda>c. NaN)(''Sales Volume'' := Str ''10'', ''price'' := Str ''2'',
                    ''Product Position'' := Str ''Shelf A''),
         (\<lambda>c. NaN)(''Sales Volume'' := Str ''0'', ''price'' := Str ''5'',
                    ''Product Position'' := Str ''Shelf B''),
         (\<lambda>c. NaN)(''Sales Volume'' := Str ''3'', ''price'' := Str ''bad'',
                    ''Product Position'' := Str ''Shelf A'')]\<rparr>"

text \<open>The mask of line 32 on one row, the derived row of line 33, and a row with its Revenue cell blanked.\<close>

abbreviation positive :: "row \<Rightarrow> bool" where
  "positive r \<equiv> gt0 (r ''Sales Volume'') \<and> gt0 (r ''price'')"

abbreviation with_revenue :: "row \<Rightarrow> row" where
  "with_revenue r \<equiv> r(''Revenue'' := mul (r ''Sales Volume'') (r ''price''))"

abbreviation without_revenue :: "row \<Rightarrow> row" where
  "without_revenue r \<equiv> r(''Revenue'' := NaN)"

text \<open>Both numeric columns exist and hold no string: what lines 29-30 establish.\<close>

definition numeric :: "frame \<Rightarrow> bool" where
  "numeric df =
     (''Sales Volume'' \<in> set (columns df) \<and> ''price'' \<in> set (columns df) \<and>
      \<not> list_ex (\<lambda>r. is_Str (r ''Sales Volume'') \<or> is_Str (r ''price'')) (rows df))"

text \<open>The example table after lines 25-30.\<close>

definition example_df :: frame where
  "example_df =
     (ensure_cols example_raw)\<lparr>rows := coerce_rows example_parse (rows (ensure_cols example_raw))\<rparr>"

text \<open>
  What lines 25-33 establish of the clean table: every expected column and Revenue
  exist, the numeric columns hold no string, and every row passed the mask.
\<close>

definition clean_table :: "frame \<Rightarrow> bool" where
  "clean_table d =
     (numeric d \<and> set expected_cols \<subseteq> set (columns d) \<and> ''Revenue'' \<in> set (columns d) \<and>
      list_all (\<lambda>r. positive r \<and> r ''Revenue'' = mul (r ''Sales Volume'') (r ''price'')) (rows d))"

text \<open>
  A second example: five input rows, two of them filtered out, one with a missing
  Product Position.
\<close>

definition example_sales :: frame where
  "example_sales =
     \<lparr>columns = [''Sales Volume'', ''price'', ''Product Position'', ''name''],
      rows =
        [(\<lambda>c. NaN)(''Sales Volume'' := Str ''3'', ''price'' := Str ''2'',
                    ''Product Position'' := Str ''Shelf A'', ''name'' := Str ''mug''),
         (\<lambda>c. NaN)(''Sales Volume'' := Str ''0'', ''price'' := Str ''5'',
                    ''Product Position'' := Str ''Shelf B'', ''name'' := Str ''cup''),
         (\<lambda>c. NaN)(''Sales Volume'' := Str ''3'', ''price'' := Str ''bad'',
                    ''Product Position'' := Str ''Shelf A'', ''name'' := Str ''mug''),
         (\<lambda>c. NaN)(''Sales Volume'' := Str ''4'', ''price'' := Str ''1'',
                    ''Product Position'' := NaN, ''name'' := Str ''cup''),
         (\<lambda>c. NaN)(''Sales Volume'' := Str ''5'', ''price'' := Str ''1'',
                    ''Product Position'' := Str ''Shelf B'', ''name'' := Str ''mug'')]\<rparr>"

text \<open>The clean table of the second example.\<close>

definition example_clean :: frame where
  "example_clean =
     \<lparr>columns = columns (ensure_cols example_sales) @ [''Revenue''],
      rows = map with_revenue
               (filter positive (coerce_rows example_parse (rows (ensure_cols example_sales))))\<rparr>"

text \<open>
  A third example: one row that passes the filter, with a Product Position and a
  missing season; the origin column is absent from the input.
\<close>

definition example_season_missing :: frame where
  "example_season_missing =
     \<lparr>columns = [''Sales Volume'', ''price'', ''Product Position'', ''season''],
      rows =
        [(\<lambda>c. NaN)(''Sales Volume'' := Str ''3'', ''price'' := Str ''2'',
                    ''Product Position'' := Str ''Shelf A'', ''season'' := NaN)]\<rparr>"

text \<open>A formatting of cell values for the examples: a string as it is.\<close>

definition example_fmt :: "cell \<Rightarrow> string" where
  "example_fmt c = (case c of Str s \<Rightarrow> s | _ \<Rightarrow> ''?'')"

text \<open>The clean table of the third example.\<close>

definition example_season_clean :: frame where
  "example_season_clean =
     \<lparr>columns = (if ''Revenue'' \<in> set (columns (ensure_cols example_season_missing))
                 then columns (ensure_cols example_season_missing)
                 else columns (ensure_cols example_season_missing) @ [''Revenue'']),
      rows = map with_revenue
               (filter positive
                  (coerce_rows example_parse (rows (ensure_cols example_season_missing))))\<rparr>"

section \<open>Lines 25-33 on int64 and float64 columns\<close>


































section \<open>The normalizer\<close>

lemma columns_ensure_col: "set (columns (ensure_col df c)) = insert c (set (columns df))"
  by (auto simp: ensure_col_def)

lemma columns_foldl_ensure_col:
  "set (columns (foldl ensure_col df cs)) = set (columns df) \<union> set cs"
  by (induction cs arbitrary: df) (auto simp: columns_ensure_col)

lemma columns_ensure_cols: "set (columns (ensure_cols df)) = set (columns df) \<union> set expected_cols"
  by (simp add: ensure_cols_def columns_foldl_ensure_col)

lemma Sales_Volume_expected: "''Sales Volume'' \<in> set expected_cols"
  by (simp add: expected_cols_def)

lemma price_expected: "''price'' \<in> set expected_cols"
  by (simp add: expected_cols_def)

lemma foldl_ensure_col_present:
  "set cs \<subseteq> set (columns df) \<Longrightarrow> foldl ensure_col df cs = df"
  by (induction cs arbitrary: df) (auto simp: ensure_col_def)

lemma ensure_cols_present:
  "set expected_cols \<subseteq> set (columns df) \<Longrightarrow> ensure_cols df = df"
  by (simp add: ensure_cols_def foldl_ensure_col_present)

lemma normalize_eq:
  "normalize parse df =
     Inr ((ensure_cols df)\<lparr>rows := coerce_rows parse (rows (ensure_cols df))\<rparr>)"
  by (simp add: normalize_def coerce_column_def columns_ensure_cols Sales_Volume_expected
      price_expected coerce_rows_def comp_def)

lemma coerce_cell_num: "\<exists>x. fillna0 (to_numeric parse c) = Num x"
  by (cases c) (auto simp: fillna0_def to_numeric_def split: option.splits)

lemma coerce_cell_idem:
  "fillna0 (to_numeric parse (fillna0 (to_numeric parse c))) = fillna0 (to_numeric parse c)"
  by (cases c) (auto simp: fillna0_def to_numeric_def split: option.splits)

lemma coerce_rows_idem: "coerce_rows parse (coerce_rows parse rs) = coerce_rows parse rs"
  by (auto simp: coerce_rows_def coerce_cell_idem fun_eq_iff)

text \<open>
  Claim C6. The Schema Normalizer is idempotent: on every table it returns a table,
  and applied to that table it returns the same table again.
\<close>

theorem normalize_idempotent:
  "\<exists>d. normalize parse df = Inr d \<and> normalize parse d = Inr d"
proof -
  let ?e = "ensure_cols df"
  let ?d = "?e\<lparr>rows := coerce_rows parse (rows ?e)\<rparr>"
  have cols: "set expected_cols \<subseteq> set (columns ?d)"
    by (simp add: columns_ensure_cols)
  have "ensure_cols ?d = ?d"
    using cols by (rule ensure_cols_present)
  then have "normalize parse ?d = Inr ?d"
    by (simp add: normalize_eq coerce_rows_idem)
  then show ?thesis
    by (simp add: normalize_eq)
qed

lemma coerce_rows_num:
  "r \<in> set (coerce_rows parse rs) \<Longrightarrow> (\<exists>x. r ''Sales Volume'' = Num x) \<and> (\<exists>y. r ''price'' = Num y)"
  using coerce_cell_num by (auto simp: coerce_rows_def)

text \<open>
  Claim C4. Numeric coercion (\<^verbatim>\<open>to_numeric\<close> with \<open>errors="coerce"\<close>, then
  \<^verbatim>\<open>fillna(0)\<close>) yields a number for every cell; a missing value and a string that
  fails numeric parsing yield 0. On every table lines 25-30 raise nothing, and the
  Sales Volume and price columns of the result hold the coerced cells, all numbers.
\<close>

theorem numeric_coercion_total:
  "(\<exists>x. fillna0 (to_numeric parse c) = Num x) \<and>
   (c = NaN \<longrightarrow> fillna0 (to_numeric parse c) = Num 0) \<and>
   (\<forall>s. c = Str s \<and> parse s = None \<longrightarrow> fillna0 (to_numeric parse c) = Num 0) \<and>
   (\<exists>d. normalize parse df = Inr d \<and>
        getitem d ''Sales Volume'' =
          Inr (map (\<lambda>r. fillna0 (to_numeric parse (r ''Sales Volume''))) (rows (ensure_cols df))) \<and>
        getitem d ''price'' =
          Inr (map (\<lambda>r. fillna0 (to_numeric parse (r ''price''))) (rows (ensure_cols df))) \<and>
        (\<forall>r \<in> set (rows d). (\<exists>x. r ''Sales Volume'' = Num x) \<and> (\<exists>y. r ''price'' = Num y)))"
proof (intro conjI)
  show "\<exists>x. fillna0 (to_numeric parse c) = Num x"
    by (rule coerce_cell_num)
  show "c = NaN \<longrightarrow> fillna0 (to_numeric parse c) = Num 0"
    by (simp add: fillna0_def to_numeric_def)
  show "\<forall>s. c = Str s \<and> parse s = None \<longrightarrow> fillna0 (to_numeric parse c) = Num 0"
    by (simp add: fillna0_def to_numeric_def)
  let ?e = "ensure_cols df"
  let ?d = "?e\<lparr>rows := coerce_rows parse (rows ?e)\<rparr>"
  have 1: "getitem ?d ''Sales Volume'' =
          Inr (map (\<lambda>r. fillna0 (to_numeric parse (r ''Sales Volume''))) (rows ?e))"
    by (simp add: getitem_def columns_ensure_cols Sales_Volume_expected coerce_rows_def comp_def)
  have 2: "getitem ?d ''price'' =
          Inr (map (\<lambda>r. fillna0 (to_numeric parse (r ''price''))) (rows ?e))"
    by (simp add: getitem_def columns_ensure_cols price_expected coerce_rows_def comp_def)
  have 3: "\<forall>r \<in> set (rows ?d). (\<exists>x. r ''Sales Volume'' = Num x) \<and> (\<exists>y. r ''price'' = Num y)"
    using coerce_rows_num by simp
  show "\<exists>d. normalize parse df = Inr d \<and>
        getitem d ''Sales Volume'' =
          Inr (map (\<lambda>r. fillna0 (to_numeric parse (r ''Sales Volume''))) (rows (ensure_cols df))) \<and>
        getitem d ''price'' =
          Inr (map (\<lambda>r. fillna0 (to_numeric parse (r ''price''))) (rows (ensure_cols df))) \<and>
        (\<forall>r \<in> set (rows d). (\<exists>x. r ''Sales Volume'' = Num x) \<and> (\<exists>y. r ''price'' = Num y))"
    using 1 2 3 by (simp add: normalize_eq)
qed

theorem numeric_coercion_total_witness:
  "example_parse ''bad'' = None \<and>
   fillna0 (to_numeric example_parse (Str ''bad'')) = Num 0 \<and>
   fillna0 (to_numeric example_parse NaN) = Num 0 \<and>
   (\<exists>d. normalize example_parse example_raw = Inr d \<and> rows d \<noteq> [] \<and>
        getitem d ''price'' = Inr [Num 2, Num 5, Num 0])"
proof -
  have p: "example_parse ''bad'' = None"
    by (simp add: example_parse_def)
  have e: "map (\<lambda>r. fillna0 (to_numeric example_parse (r ''price''))) (rows (ensure_cols example_raw))
            = [Num 2, Num 5, Num 0]"
    by (simp add: ensure_cols_def expected_cols_def ensure_col_def example_raw_def
        fillna0_def to_numeric_def example_parse_def)
  have n: "rows (ensure_cols example_raw) \<noteq> []"
    by (simp add: ensure_cols_def expected_cols_def ensure_col_def example_raw_def)
  show ?thesis
    using p e n numeric_coercion_total [of example_parse "Str ''bad''" example_raw]
      numeric_coercion_total [of example_parse NaN example_raw]
    by (auto simp: normalize_eq coerce_rows_def)
qed

section \<open>Routing\<close>

text \<open>
  Claim C5. The page selection returns one of the four pages for every path string,
  and the overview page for every string other than \<open>/details\<close>, \<open>/advanced\<close> and
  \<open>/insights\<close>, the root path and the empty string among them.
\<close>

theorem change_page_total:
  "change_page path \<in> {Overview, Details, Advanced, Insights} \<and>
   (path \<notin> {''/details'', ''/advanced'', ''/insights''} \<longrightarrow> change_page path = Overview)"
  by (simp add: change_page_def)

theorem change_page_total_witness:
  "''/'' \<notin> {''/details'', ''/advanced'', ''/insights''} \<and> change_page ''/'' = Overview \<and>
   [] \<notin> {''/details'', ''/advanced'', ''/insights''} \<and> change_page [] = Overview"
  using change_page_total [of "''/''"] change_page_total [of "[]"]
  by simp

section \<open>Filter and derive\<close>

lemma numeric_normalize:
  assumes "normalize parse raw = Inr df"
  shows "numeric df"
proof -
  have df: "df = (ensure_cols raw)\<lparr>rows := coerce_rows parse (rows (ensure_cols raw))\<rparr>"
    using assms by (simp add: normalize_eq)
  have "\<not> is_Str (r ''Sales Volume'') \<and> \<not> is_Str (r ''price'')"
    if "r \<in> set (coerce_rows parse rs)" for r rs
    using coerce_rows_num [OF that] by (auto simp: is_Str_def)
  then show ?thesis
    by (auto simp: numeric_def df columns_ensure_cols Sales_Volume_expected price_expected
        list_ex_iff)
qed

lemma select_positive_numeric:
  "numeric df \<Longrightarrow> select_positive df = Inr (df\<lparr>rows := filter positive (rows df)\<rparr>)"
  by (auto simp: numeric_def select_positive_def list_ex_iff)

lemma numeric_filter: "numeric df \<Longrightarrow> numeric (df\<lparr>rows := filter P (rows df)\<rparr>)"
  by (auto simp: numeric_def list_ex_iff)

lemma set_revenue_numeric:
  "numeric d \<Longrightarrow>
   set_revenue d =
     Inr \<lparr>columns = (if ''Revenue'' \<in> set (columns d) then columns d
                      else columns d @ [''Revenue'']),
          rows = map with_revenue (rows d)\<rparr>"
  by (simp add: numeric_def set_revenue_def)

lemma df_clean_numeric:
  assumes "numeric df"
  shows "df_clean df =
     Inr \<lparr>columns = (if ''Revenue'' \<in> set (columns df) then columns df
                      else columns df @ [''Revenue'']),
          rows = map with_revenue (filter positive (rows df))\<rparr>"
  using assms set_revenue_numeric [OF numeric_filter [OF assms, of positive]]
  by (simp add: df_clean_def select_positive_numeric)

lemma positive_revenue:
  assumes "positive r"
  shows "\<exists>v p. r ''Sales Volume'' = Num v \<and> r ''price'' = Num p \<and> 0 < v \<and> 0 < p \<and>
               mul (r ''Sales Volume'') (r ''price'') = Num (v * p)"
  using assms by (auto simp: gt0_def mul_def split: cell.splits)

lemma example_df_normalize: "normalize example_parse example_raw = Inr example_df"
  by (simp add: normalize_eq example_df_def)

lemma exec_filter_derive_eq:
  assumes "select_positive (heap ! i) = Inr sel" and "set_revenue sel = Inr d"
  shows "exec_filter_derive heap i =
           Inr ((heap @ [sel, sel])[Suc (length heap) := d], Suc (length heap))"
proof -
  have "(heap @ [sel, sel]) ! Suc (length heap) = sel"
    by (simp add: nth_append)
  then show ?thesis
    using assms by (simp add: exec_filter_derive_def Let_def nth_append)
qed

text \<open>
  Claim C8. On a store that holds a normalized table, lines 32-33 raise nothing. The
  object bound to \<^verbatim>\<open>df_clean\<close> is a new one and is the value of the function
  \<^term>\<open>df_clean\<close> at the input table, so it depends on nothing else; every object
  the store held before, the input among them, is unchanged. Revenue apart, the rows
  of the clean table are the rows of the input that pass the positivity mask, in the
  order of the input.
\<close>

theorem filter_derive_order_preserving:
  assumes "i < length heap" and "normalize parse raw = Inr (heap ! i)"
  shows "\<exists>heap' a d. exec_filter_derive heap i = Inr (heap', a) \<and>
      df_clean (heap ! i) = Inr d \<and> a < length heap' \<and> heap' ! a = d \<and> a \<noteq> i \<and>
      (\<forall>j < length heap. heap' ! j = heap ! j) \<and>
      map without_revenue (rows d) = map without_revenue (filter positive (rows (heap ! i))) \<and>
      subseq (map without_revenue (rows d)) (map without_revenue (rows (heap ! i)))"
proof -
  let ?df = "heap ! i"
  let ?d = "\<lparr>columns = (if ''Revenue'' \<in> set (columns ?df) then columns ?df
                      else columns ?df @ [''Revenue'']),
          rows = map with_revenue (filter positive (rows ?df))\<rparr>"
  have c: "df_clean ?df = Inr ?d"
    by (rule df_clean_numeric [OF numeric_normalize [OF assms(2)]])
  from c obtain sel where "select_positive ?df = Inr sel" "set_revenue sel = Inr ?d"
    by (auto simp: df_clean_def split: sum.splits)
  then have e: "exec_filter_derive heap i =
      Inr ((heap @ [sel, sel])[Suc (length heap) := ?d], Suc (length heap))"
    by (rule exec_filter_derive_eq)
  let ?h = "(heap @ [sel, sel])[Suc (length heap) := ?d]"
  have 1: "Suc (length heap) < length ?h" "?h ! Suc (length heap) = ?d"
    by simp_all
  have 2: "Suc (length heap) \<noteq> i"
    using assms(1) by simp
  have 3: "\<forall>j < length heap. ?h ! j = heap ! j"
    by (simp add: nth_append)
  have 4: "map without_revenue (rows ?d) = map without_revenue (filter positive (rows ?df))"
    by (simp add: comp_def)
  have 5: "subseq (map without_revenue (rows ?d)) (map without_revenue (rows ?df))"
    unfolding 4 by (intro subseq_map subseq_filter_left)
  from e c 1 2 3 4 5 show ?thesis
    by blast
qed

theorem filter_derive_order_preserving_witness:
  "(0::nat) < length [example_df] \<and>
   normalize example_parse example_raw = Inr ([example_df] ! 0) \<and>
   (\<exists>heap' a d. exec_filter_derive [example_df] 0 = Inr (heap', a) \<and>
      df_clean ([example_df] ! 0) = Inr d \<and> heap' ! a = d \<and> heap' ! 0 = example_df \<and>
      map (\<lambda>r. r ''Product Position'') (rows d) = [Str ''Shelf A''])"
proof -
  have n: "normalize example_parse example_raw = Inr ([example_df] ! 0)"
    by (simp add: example_df_normalize)
  have f: "map (\<lambda>r. without_revenue r ''Product Position'') (filter positive (rows example_df))
      = [Str ''Shelf A'']"
    by (simp add: example_df_def ensure_cols_def expected_cols_def ensure_col_def example_raw_def
      coerce_rows_def fillna0_def to_numeric_def example_parse_def gt0_def)
  from filter_derive_order_preserving [OF _ n] obtain heap' a d where
    h: "exec_filter_derive [example_df] 0 = Inr (heap', a)"
      "df_clean ([example_df] ! 0) = Inr d" "heap' ! a = d"
      "\<forall>j < length [example_df]. heap' ! j = [example_df] ! j"
      "map without_revenue (rows d) = map without_revenue (filter positive (rows ([example_df] ! 0)))"
    by auto
  from h(5) have "map (\<lambda>r. r ''Product Position'') (map without_revenue (rows d)) =
     map (\<lambda>r. r ''Product Position'') (map without_revenue (filter positive (rows example_df)))"
    by simp
  then have "map (\<lambda>r. r ''Product Position'') (rows d) = [Str ''Shelf A'']"
    using f by (simp add: comp_def)
  moreover from h(4) have "heap' ! 0 = example_df"
    by simp
  ultimately show ?thesis
    using n h(1,2,3) by auto
qed

section \<open>The clean table\<close>

lemma load_clean_eq:
  "load_clean parse raw =
     Inr \<lparr>columns = (if ''Revenue'' \<in> set (columns (ensure_cols raw)) then columns (ensure_cols raw)
                      else columns (ensure_cols raw) @ [''Revenue'']),
          rows = map with_revenue
                   (filter positive (coerce_rows parse (rows (ensure_cols raw))))\<rparr>"
proof -
  let ?df = "(ensure_cols raw)\<lparr>rows := coerce_rows parse (rows (ensure_cols raw))\<rparr>"
  have n: "normalize parse raw = Inr ?df"
    by (rule normalize_eq)
  show ?thesis
    by (simp add: load_clean_def n df_clean_numeric [OF numeric_normalize [OF n]])
qed

lemma load_clean_clean: "\<exists>d. load_clean parse raw = Inr d \<and> clean_table d"
proof -
  obtain df where n: "normalize parse raw = Inr df"
    by (simp add: normalize_eq)
  have num: "numeric df"
    by (rule numeric_normalize [OF n])
  have cols: "set expected_cols \<subseteq> set (columns df)"
    using n by (auto simp: normalize_eq columns_ensure_cols)
  let ?d = "\<lparr>columns = (if ''Revenue'' \<in> set (columns df) then columns df
                      else columns df @ [''Revenue'']),
          rows = map with_revenue (filter positive (rows df))\<rparr>"
  have c: "df_clean df = Inr ?d"
    by (rule df_clean_numeric [OF num])
  have "\<not> is_Str (mul a b)" for a b
    by (simp add: mul_def is_Str_def split: cell.splits)
  then have "numeric ?d"
    using num by (auto simp: numeric_def list_ex_iff)
  moreover have "set expected_cols \<subseteq> set (columns ?d)"
    using cols by auto
  moreover have "list_all (\<lambda>r. positive r \<and> r ''Revenue'' = mul (r ''Sales Volume'') (r ''price'')) (rows ?d)"
    by (simp add: list_all_iff)
  ultimately have "clean_table ?d"
    by (simp add: clean_table_def)
  then show ?thesis
    using n c by (simp add: load_clean_def)
qed

section \<open>Grouped sums\<close>

lemma mset_insort_cell: "mset (insort_cell k xs) = add_mset k (mset xs)"
  by (induction xs) auto

lemma mset_sort_keys: "mset (sort_keys ks) = mset ks"
  by (induction ks) (auto simp: sort_keys_def mset_insort_cell)

lemma set_sort_keys: "set (sort_keys ks) = set ks"
  using mset_sort_keys by (metis set_mset_mset)

lemma distinct_sort_keys: "distinct (sort_keys ks) = distinct ks"
  using mset_sort_keys by (metis mset_eq_imp_distinct_iff)

lemma length_sort_keys: "length (sort_keys ks) = length ks"
  using mset_sort_keys by (metis size_mset)

lemma set_group_keys: "set (group_keys col rs) = (\<lambda>r. r col) ` set rs - {NaN}"
  by (auto simp: group_keys_def set_sort_keys)

lemma distinct_group_keys: "distinct (group_keys col rs)"
  by (simp add: group_keys_def distinct_sort_keys)

lemma length_group_keys: "length (group_keys col rs) = nunique (map (\<lambda>r. r col) rs)"
  by (simp add: group_keys_def length_sort_keys nunique_def)

lemma sum_list_groups:
  fixes h :: "'a \<Rightarrow> real"
  assumes "distinct ks"
  shows "(\<Sum>k\<leftarrow>ks. sum_list (map h (filter (\<lambda>r. f r = k) rs))) =
         sum_list (map h (filter (\<lambda>r. f r \<in> set ks) rs))"
proof -
  have "(\<Sum>k\<in>set ks. sum_list (map h (filter (\<lambda>r. f r = k) rs))) =
         sum_list (map h (filter (\<lambda>r. f r \<in> set ks) rs))"
  proof (induction rs)
    case Nil
    show ?case by simp
  next
    case (Cons r rs)
    have "(\<Sum>k\<in>set ks. sum_list (map h (filter (\<lambda>r. f r = k) (r # rs)))) =
          (\<Sum>k\<in>set ks. (if f r = k then h r else 0) + sum_list (map h (filter (\<lambda>r. f r = k) rs)))"
      by (intro sum.cong) auto
    also have "\<dots> = (\<Sum>k\<in>set ks. if f r = k then h r else 0) +
          (\<Sum>k\<in>set ks. sum_list (map h (filter (\<lambda>r. f r = k) rs)))"
      by (rule sum.distrib)
    also have "(\<Sum>k\<in>set ks. if f r = k then h r else 0) = (if f r \<in> set ks then h r else 0)"
      by (simp add: sum.delta')
    finally show ?case
      using Cons.IH by simp
  qed
  then show ?thesis
    using assms by (simp add: sum_list_distinct_conv_sum_set)
qed

lemma sum_list_filter_split:
  fixes h :: "'a \<Rightarrow> real"
  shows "sum_list (map h xs) =
         sum_list (map h (filter P xs)) + sum_list (map h (filter (\<lambda>x. \<not> P x) xs))"
  by (induction xs) auto

lemma sum_list_pos_nonempty:
  fixes h :: "'a \<Rightarrow> real"
  shows "xs \<noteq> [] \<Longrightarrow> (\<And>x. x \<in> set xs \<Longrightarrow> 0 < h x) \<Longrightarrow> 0 < sum_list (map h xs)"
proof (induction xs)
  case Nil
  then show ?case by simp
next
  case (Cons x xs)
  show ?case
  proof (cases "xs = []")
    case True
    then show ?thesis using Cons.prems by simp
  next
    case False
    then have "0 < sum_list (map h xs)"
      using Cons by simp
    moreover have "0 < h x"
      using Cons.prems by simp
    ultimately show ?thesis by simp
  qed
qed

lemma sum_list_sort_values_desc:
  "sum_list (map snd (sort_values_desc ps)) = sum_list (map snd ps)"
proof -
  have "mset (map snd (sort_values_desc ps)) = mset (map snd ps)"
    by (simp add: sort_values_desc_def)
  then show ?thesis
    by (metis sum_mset_sum_list)
qed

lemma sorted_sort_values_desc: "sorted_wrt (\<ge>) (map snd (sort_values_desc ps))"
proof -
  have "sorted (map (\<lambda>p. - snd p) (sort_values_desc ps))"
    by (simp add: sort_values_desc_def)
  then show ?thesis
    by (simp add: sorted_wrt_map)
qed

lemma volumes_agg_frame: "volumes (agg_frame col ps) = map snd ps"
  by (simp add: volumes_def agg_frame_def num0_def comp_def)

lemma keys_agg_frame:
  "col \<noteq> ''Sales Volume'' \<Longrightarrow> map (\<lambda>r. r col) (rows (agg_frame col ps)) = map fst ps"
  by (simp add: agg_frame_def comp_def)

lemma grouped_eq:
  assumes "col \<in> set (columns df)" and "''Sales Volume'' \<in> set (columns df)"
    and "\<not> list_ex (\<lambda>r. is_Str (r ''Sales Volume'')) (rows df)"
  shows "grouped df col = Inr (agg_frame col (sort_values_desc (groupby_sum col (rows df))))"
  using assms by (simp add: grouped_def)

lemma grouped_sorted: "grouped df col = Inr t \<Longrightarrow> sorted_wrt (\<ge>) (volumes t)"
  by (auto simp: grouped_def volumes_agg_frame sorted_sort_values_desc split: if_splits)

lemma numeric_grouped:
  assumes "numeric d" and "col \<in> set (columns d)"
  shows "grouped d col = Inr (agg_frame col (sort_values_desc (groupby_sum col (rows d))))"
  using assms by (intro grouped_eq) (auto simp: numeric_def list_ex_iff)

lemma numeric_g: 
  assumes "numeric d"
  shows "\<exists>t. g d col = Inr t"
  using numeric_grouped [OF assms] by (simp add: g_def)

section \<open>The aggregate tables\<close>

lemma empty_df_DataFrame: "empty_df DataFrame"
  by (simp add: empty_df_def DataFrame_def)

lemma g_sorted: "g df col = Inr t \<Longrightarrow> sorted_wrt (\<ge>) (volumes t)"
  by (auto simp: g_def volumes_def DataFrame_def dest: grouped_sorted split: if_splits)

text \<open>
  Claim C2. Whenever \<^verbatim>\<open>g\<close> returns a table, its rows are sorted non-increasing by
  the summed Sales Volume; on an empty table or an absent key column it returns the
  empty table and raises nothing; and on the clean table of any input it returns a
  table for every key column.
\<close>

theorem g_sorted_and_empty_policy:
  "(\<forall>t. g df col = Inr t \<longrightarrow> sorted_wrt (\<ge>) (volumes t)) \<and>
   (empty_df df \<or> col \<notin> set (columns df) \<longrightarrow> g df col = Inr DataFrame) \<and>
   empty_df DataFrame \<and>
   (\<exists>d t. load_clean parse raw = Inr d \<and> g d col = Inr t \<and> sorted_wrt (\<ge>) (volumes t))"
proof (intro conjI)
  show "\<forall>t. g df col = Inr t \<longrightarrow> sorted_wrt (\<ge>) (volumes t)"
    using g_sorted by blast
  show "empty_df df \<or> col \<notin> set (columns df) \<longrightarrow> g df col = Inr DataFrame"
    by (auto simp: g_def)
  show "empty_df DataFrame"
    by (rule empty_df_DataFrame)
  obtain d where d: "load_clean parse raw = Inr d" "clean_table d"
    using load_clean_clean by blast
  then obtain t where t: "g d col = Inr t"
    using numeric_g [of d col] by (auto simp: clean_table_def)
  with d(1) g_sorted [OF t]
  show "\<exists>d t. load_clean parse raw = Inr d \<and> g d col = Inr t \<and> sorted_wrt (\<ge>) (volumes t)"
    by blast
qed

lemma example_sales_columns:
  "columns (ensure_cols example_sales) =
     [''Sales Volume'', ''price'', ''Product Position'', ''name'', ''Product ID'', ''Promotion'',
      ''Product Category'', ''Seasonal'', ''brand'', ''url'', ''description'', ''currency'',
      ''terms'', ''section'', ''season'', ''material'', ''origin'']"
  by (simp add: ensure_cols_def expected_cols_def ensure_col_def example_sales_def)

lemma load_clean_example_sales: "load_clean example_parse example_sales = Inr example_clean"
proof -
  let ?df = "(ensure_cols example_sales)\<lparr>rows := coerce_rows example_parse (rows (ensure_cols example_sales))\<rparr>"
  have n: "normalize example_parse example_sales = Inr ?df"
    by (rule normalize_eq)
  have "df_clean ?df = Inr example_clean"
    by (simp add: df_clean_numeric [OF numeric_normalize [OF n]] example_clean_def
        example_sales_columns)
  then show ?thesis
    by (simp add: load_clean_def n)
qed

lemma example_clean_rows:
  "map (\<lambda>r. (r ''Sales Volume'', r ''price'', r ''Product Position'', r ''name'', r ''Revenue''))
     (rows example_clean) =
     [(Num 3, Num 2, Str ''Shelf A'', Str ''mug'', Num 6),
      (Num 4, Num 1, NaN, Str ''cup'', Num 4),
      (Num 5, Num 1, Str ''Shelf B'', Str ''mug'', Num 5)]"
  by (simp add: example_clean_def ensure_cols_def expected_cols_def ensure_col_def
      example_sales_def coerce_rows_def fillna0_def to_numeric_def example_parse_def gt0_def
      mul_def)

lemma example_clean_by_position:
  "groupby_sum ''Product Position'' (rows example_clean) = [(Str ''Shelf A'', 3), (Str ''Shelf B'', 5)]"
  by (simp add: example_clean_def ensure_cols_def expected_cols_def ensure_col_def
      example_sales_def coerce_rows_def fillna0_def to_numeric_def example_parse_def gt0_def
      mul_def groupby_sum_def group_keys_def group_sum_def sort_keys_def num0_def)

lemma example_clean_table: "clean_table example_clean"
  using load_clean_clean [of example_parse example_sales]
  by (simp add: load_clean_example_sales)

lemma example_clean_nonempty: "rows example_clean \<noteq> []"
  using example_clean_rows by auto

lemma example_clean_columns:
  "columns example_clean =
     [''Sales Volume'', ''price'', ''Product Position'', ''name'', ''Product ID'', ''Promotion'',
      ''Product Category'', ''Seasonal'', ''brand'', ''url'', ''description'', ''currency'',
      ''terms'', ''section'', ''season'', ''material'', ''origin'', ''Revenue'']"
  by (simp add: example_clean_def example_sales_columns)

lemma g_example_clean:
  assumes "col \<in> set (columns example_clean)"
  shows "g example_clean col =
           Inr (agg_frame col (sort_values_desc (groupby_sum col (rows example_clean))))"
proof -
  have "numeric example_clean"
    using example_clean_table by (simp add: clean_table_def)
  from numeric_grouped [OF this assms] show ?thesis
    using assms example_clean_nonempty by (auto simp: g_def empty_df_def)
qed

theorem g_sorted_and_empty_policy_witness:
  "empty_df DataFrame \<and> g DataFrame ''Product Position'' = Inr DataFrame \<and>
   ''colour'' \<notin> set (columns example_clean) \<and> g example_clean ''colour'' = Inr DataFrame \<and>
   (\<exists>d t. load_clean example_parse example_sales = Inr d \<and> g d ''Product Position'' = Inr t \<and>
      map (\<lambda>r. r ''Product Position'') (rows t) = [Str ''Shelf B'', Str ''Shelf A''] \<and>
      volumes t = [5, 3])"
proof -
  have a: "''colour'' \<notin> set (columns example_clean)"
    by (simp add: example_clean_columns)
  have "g example_clean ''Product Position'' =
      Inr (agg_frame ''Product Position'' [(Str ''Shelf B'', 5), (Str ''Shelf A'', 3)])"
    by (simp add: g_example_clean example_clean_columns example_clean_by_position
        sort_values_desc_def)
  moreover have "map (\<lambda>r. r ''Product Position'')
      (rows (agg_frame ''Product Position'' [(Str ''Shelf B'', 5), (Str ''Shelf A'', 3)])) =
      [Str ''Shelf B'', Str ''Shelf A'']"
    by (simp add: agg_frame_def)
  ultimately show ?thesis
    using a g_sorted_and_empty_policy [of DataFrame "''Product Position''" example_parse example_sales]
      g_sorted_and_empty_policy [of example_clean "''colour''" example_parse example_sales]
    by (auto simp: load_clean_example_sales volumes_agg_frame)
qed

lemma head_all: "length (rows t) \<le> n \<Longrightarrow> head n t = t"
  by (simp add: head_def)

lemma volumes_head: "volumes (head n t) = take n (volumes t)"
  by (simp add: volumes_def head_def take_map)

lemma name_expected: "''name'' \<in> set expected_cols"
  by (simp add: expected_cols_def)

lemma set_sort_values_desc: "set (sort_values_desc ps) = set ps"
  by (simp add: sort_values_desc_def)

lemma distinct_keys_sort_values_desc:
  "distinct (map fst (sort_values_desc ps)) = distinct (map fst ps)"
proof -
  have "mset (map fst (sort_values_desc ps)) = mset (map fst ps)"
    by (simp add: sort_values_desc_def)
  then show ?thesis
    by (rule mset_eq_imp_distinct_iff)
qed

lemma keys_groupby_sum: "map fst (groupby_sum col rs) = group_keys col rs"
  by (simp add: groupby_sum_def comp_def)

lemma groupby_sum_snd: "p \<in> set (groupby_sum col rs) \<Longrightarrow> snd p = group_sum col rs (fst p)"
  by (auto simp: groupby_sum_def)

text \<open>
  Claim C7. On the clean table of any input, the by-name grouped sum cut to its first
  n rows raises nothing and is sorted non-increasing by summed Sales Volume; when n
  exceeds the number of distinct names it is the whole grouped table: one row for each
  distinct name, no more, each with the sum of its group.
\<close>

theorem top_n_returns_all_groups:
  "\<exists>d t. load_clean parse raw = Inr d \<and> top_n n d = Inr t \<and> sorted_wrt (\<ge>) (volumes t) \<and>
     (nunique (map (\<lambda>r. r ''name'') (rows d)) < n \<longrightarrow>
        grouped d ''name'' = Inr t \<and>
        length (rows t) = nunique (map (\<lambda>r. r ''name'') (rows d)) \<and>
        distinct (map (\<lambda>r. r ''name'') (rows t)) \<and>
        set (map (\<lambda>r. r ''name'') (rows t)) = set (map (\<lambda>r. r ''name'') (rows d)) - {NaN} \<and>
        (\<forall>r \<in> set (rows t).
           r ''Sales Volume'' = Num (group_sum ''name'' (rows d) (r ''name''))))"
proof -
  obtain d where d: "load_clean parse raw = Inr d" "clean_table d"
    using load_clean_clean by blast
  let ?ps = "sort_values_desc (groupby_sum ''name'' (rows d))"
  let ?full = "agg_frame ''name'' ?ps"
  have "''name'' \<in> set (columns d)"
    using d(2) name_expected by (auto simp: clean_table_def)
  then have gr: "grouped d ''name'' = Inr ?full"
    using d(2) by (intro numeric_grouped) (simp_all add: clean_table_def)
  then have top: "top_n n d = Inr (head n ?full)"
    by (simp add: top_n_def)
  have "sorted_wrt (\<ge>) (volumes ?full)"
    by (rule grouped_sorted [OF gr])
  then have srt: "sorted_wrt (\<ge>) (volumes (head n ?full))"
    by (simp add: volumes_head sorted_wrt_take)
  have keys: "map (\<lambda>r. r ''name'') (rows ?full) = map fst ?ps"
    by (rule keys_agg_frame) simp
  have len: "length (rows ?full) = nunique (map (\<lambda>r. r ''name'') (rows d))"
    by (simp add: agg_frame_def sort_values_desc_def groupby_sum_def length_group_keys)
  have dist: "distinct (map (\<lambda>r. r ''name'') (rows ?full))"
    by (simp add: keys distinct_keys_sort_values_desc keys_groupby_sum distinct_group_keys)
  have "set (map fst ?ps) = set (map fst (groupby_sum ''name'' (rows d)))"
    by (simp add: set_sort_values_desc)
  then have "set (map fst ?ps) = set (group_keys ''name'' (rows d))"
    by (simp only: keys_groupby_sum)
  then have st: "set (map (\<lambda>r. r ''name'') (rows ?full)) =
      set (map (\<lambda>r. r ''name'') (rows d)) - {NaN}"
    by (simp add: keys set_group_keys)
  have sums: "\<forall>r \<in> set (rows ?full).
      r ''Sales Volume'' = Num (group_sum ''name'' (rows d) (r ''name''))"
    by (auto simp: agg_frame_def set_sort_values_desc groupby_sum_snd)
  have "head n ?full = ?full" if "nunique (map (\<lambda>r. r ''name'') (rows d)) < n"
    using that len by (intro head_all) simp
  with d(1) top srt gr len dist st sums show ?thesis
    by (intro exI [of _ d] exI [of _ "head n ?full"]) simp
qed

lemma example_clean_by_name:
  "groupby_sum ''name'' (rows example_clean) = [(Str ''cup'', 4), (Str ''mug'', 8)]"
  by (simp add: example_clean_def ensure_cols_def expected_cols_def ensure_col_def
      example_sales_def coerce_rows_def fillna0_def to_numeric_def example_parse_def gt0_def
      mul_def groupby_sum_def group_keys_def group_sum_def sort_keys_def num0_def)

theorem top_n_returns_all_groups_witness:
  "\<exists>d t. load_clean example_parse example_sales = Inr d \<and>
     nunique (map (\<lambda>r. r ''name'') (rows d)) < 10 \<and> top10 d = Inr t \<and>
     map (\<lambda>r. r ''name'') (rows t) = [Str ''mug'', Str ''cup''] \<and> volumes t = [8, 4]"
proof -
  let ?t = "agg_frame ''name'' [(Str ''mug'', 8), (Str ''cup'', 4)]"
  have "map (\<lambda>r. r ''name'') (rows example_clean) =
      map (\<lambda>(v, p, k, n, r). n)
        (map (\<lambda>r. (r ''Sales Volume'', r ''price'', r ''Product Position'', r ''name'', r ''Revenue''))
          (rows example_clean))"
    by (simp add: comp_def)
  then have nm: "map (\<lambda>r. r ''name'') (rows example_clean) = [Str ''mug'', Str ''cup'', Str ''mug'']"
    by (simp only: example_clean_rows) simp
  have nu: "nunique (map (\<lambda>r. r ''name'') (rows example_clean)) < 10"
    by (simp add: nm nunique_def)
  have "numeric example_clean"
    using example_clean_table by (simp add: clean_table_def)
  then have gr: "grouped example_clean ''name'' = Inr ?t"
    by (simp add: numeric_grouped example_clean_columns example_clean_by_name
        sort_values_desc_def)
  from top_n_returns_all_groups [of example_parse example_sales 10] nu
  have "top_n 10 example_clean = Inr ?t"
    by (auto simp: load_clean_example_sales gr)
  moreover have "map (\<lambda>r. r ''name'') (rows ?t) = [Str ''mug'', Str ''cup'']"
    by (simp add: agg_frame_def)
  ultimately show ?thesis
    using nu by (simp add: load_clean_example_sales top10_def volumes_agg_frame)
qed

section \<open>The KPI scalars\<close>

lemma clean_table_rows:
  assumes "clean_table d" and "r \<in> set (rows d)"
  shows "\<exists>v p. r ''Sales Volume'' = Num v \<and> r ''price'' = Num p \<and> 0 < v \<and> 0 < p \<and>
               r ''Revenue'' = Num (v * p)"
proof -
  from assms have "positive r" "r ''Revenue'' = mul (r ''Sales Volume'') (r ''price'')"
    by (auto simp: clean_table_def list_all_iff)
  with positive_revenue [of r] show ?thesis
    by auto
qed

lemma kpi_calc_clean:
  assumes "clean_table d"
  shows "kpi_calc d =
     Inr \<lparr>total_revenue = Num (sum_list (map (\<lambda>r. num0 (r ''Revenue'')) (rows d))),
          total_units = Num (sum_list (map (\<lambda>r. num0 (r ''Sales Volume'')) (rows d))),
          avg_price = (if rows d = [] then NaN
                       else Num (sum_list (map (\<lambda>r. num0 (r ''price'')) (rows d)) /
                                 real (length (rows d)))),
          unique_products = nunique (map (\<lambda>r. r ''Product ID'') (rows d))\<rparr>"
proof -
  have cols: "''Revenue'' \<in> set (columns d)" "''Sales Volume'' \<in> set (columns d)"
    "''price'' \<in> set (columns d)" "''Product ID'' \<in> set (columns d)"
    using assms by (auto simp: clean_table_def numeric_def expected_cols_def)
  have cells: "\<not> is_Str (r ''Revenue'') \<and> \<not> is_Str (r ''Sales Volume'') \<and>
      \<not> is_Str (r ''price'') \<and> r ''price'' \<noteq> NaN" if "r \<in> set (rows d)" for r
    using clean_table_rows [OF assms that] by (auto simp: is_Str_def)
  have s1: "series_sum (map (\<lambda>r. r ''Revenue'') (rows d)) =
      Inr (Num (sum_list (map (\<lambda>r. num0 (r ''Revenue'')) (rows d))))"
    using cells by (simp add: series_sum_def list_ex_iff comp_def)
  have s2: "series_sum (map (\<lambda>r. r ''Sales Volume'') (rows d)) =
      Inr (Num (sum_list (map (\<lambda>r. num0 (r ''Sales Volume'')) (rows d))))"
    using cells by (simp add: series_sum_def list_ex_iff comp_def)
  have "filter (\<lambda>c. c \<noteq> NaN) (map (\<lambda>r. r ''price'') (rows d)) = map (\<lambda>r. r ''price'') (rows d)"
    using cells by (simp add: filter_id_conv)
  then have s3: "series_mean (map (\<lambda>r. r ''price'') (rows d)) =
      Inr (if rows d = [] then NaN
           else Num (sum_list (map (\<lambda>r. num0 (r ''price'')) (rows d)) / real (length (rows d))))"
    using cells by (simp add: series_mean_def list_ex_iff comp_def)
  show ?thesis
    by (simp add: kpi_calc_def getitem_def cols s1 s2 s3)
qed

text \<open>
  Claim C1, as the code computes it. Whenever the clean table has no rows, the KPI
  section raises nothing; total revenue, total units and the unique product count are
  0, and the average price is NaN, not the number 0: \<^verbatim>\<open>mean()\<close> of an empty column
  has no guard.
\<close>

theorem kpi_empty_clean:
  assumes "load_clean parse raw = Inr d" and "rows d = []"
  shows "\<exists>k. kpi_calc d = Inr k \<and> total_revenue k = Num 0 \<and> total_units k = Num 0 \<and>
             unique_products k = 0 \<and> avg_price k = NaN \<and> avg_price k \<noteq> Num 0"
proof -
  have "clean_table d"
    using load_clean_clean [of parse raw] assms(1) by simp
  from kpi_calc_clean [OF this] assms(2) show ?thesis
    by (simp add: nunique_def)
qed

lemma load_clean_DataFrame:
  "load_clean parse DataFrame = Inr \<lparr>columns = expected_cols @ [''Revenue''], rows = []\<rparr>"
proof -
  have e: "ensure_cols DataFrame = \<lparr>columns = expected_cols, rows = []\<rparr>"
    by (simp add: ensure_cols_def expected_cols_def ensure_col_def DataFrame_def)
  let ?df = "\<lparr>columns = expected_cols, rows = []\<rparr>"
  have n: "normalize parse DataFrame = Inr ?df"
    by (simp add: normalize_eq e coerce_rows_def)
  have "''Revenue'' \<notin> set expected_cols"
    by (simp add: expected_cols_def)
  then have "df_clean ?df = Inr \<lparr>columns = expected_cols @ [''Revenue''], rows = []\<rparr>"
    by (simp add: df_clean_numeric [OF numeric_normalize [OF n]])
  then show ?thesis
    by (simp add: load_clean_def n)
qed

theorem kpi_empty_clean_witness:
  "\<exists>d k. load_clean example_parse DataFrame = Inr d \<and> rows d = [] \<and> kpi_calc d = Inr k \<and>
     total_revenue k = Num 0 \<and> total_units k = Num 0 \<and> unique_products k = 0 \<and>
     avg_price k = NaN"
  using kpi_empty_clean [OF load_clean_DataFrame [of example_parse]]
  by (auto simp: load_clean_DataFrame)

lemma g_clean_eq:
  assumes "clean_table d" and "col \<in> set (columns d)"
  shows "g d col =
     Inr (if rows d = [] then DataFrame
          else agg_frame col (sort_values_desc (groupby_sum col (rows d))))"
proof -
  have "numeric d"
    using assms(1) by (simp add: clean_table_def)
  from numeric_grouped [OF this assms(2)] assms(2) show ?thesis
    by (auto simp: g_def empty_df_def)
qed

lemma sum_list_groupby_sum:
  "sum_list (map snd (groupby_sum col rs)) =
     sum_list (map (\<lambda>r. num0 (r ''Sales Volume'')) (filter (\<lambda>r. r col \<noteq> NaN) rs))"
proof -
  have "sum_list (map snd (groupby_sum col rs)) =
      (\<Sum>k\<leftarrow>group_keys col rs.
         sum_list (map (\<lambda>r. num0 (r ''Sales Volume'')) (filter (\<lambda>r. r col = k) rs)))"
    by (simp add: groupby_sum_def group_sum_def comp_def)
  also have "\<dots> = sum_list (map (\<lambda>r. num0 (r ''Sales Volume''))
      (filter (\<lambda>r. r col \<in> set (group_keys col rs)) rs))"
    by (rule sum_list_groups [OF distinct_group_keys])
  also have "filter (\<lambda>r. r col \<in> set (group_keys col rs)) rs = filter (\<lambda>r. r col \<noteq> NaN) rs"
    by (rule filter_cong) (auto simp: set_group_keys)
  finally show ?thesis .
qed

text \<open>
  Claim C10. On the clean table of any input and for any of its columns as key, the
  aggregate table has no row for the missing key: its Sales Volume sums add up to the
  Sales Volume of the clean rows whose key is present, which is the total-units KPI
  less the Sales Volume of the rows whose key is missing, and is strictly less than
  the KPI as soon as one clean row has a missing key.
\<close>

theorem missing_keys_dropped:
  assumes "load_clean parse raw = Inr d" and "col \<in> set (columns d)"
  shows "\<exists>t k u. g d col = Inr t \<and> kpi_calc d = Inr k \<and> total_units k = Num u \<and>
      (\<forall>r \<in> set (rows t). r col \<noteq> NaN) \<and>
      sum_list (volumes t) =
        sum_list (map (\<lambda>r. num0 (r ''Sales Volume'')) (filter (\<lambda>r. r col \<noteq> NaN) (rows d))) \<and>
      u = sum_list (volumes t) +
        sum_list (map (\<lambda>r. num0 (r ''Sales Volume'')) (filter (\<lambda>r. r col = NaN) (rows d))) \<and>
      sum_list (volumes t) \<le> u \<and>
      ((\<exists>r \<in> set (rows d). r col = NaN) \<longrightarrow> sum_list (volumes t) < u)"
proof -
  let ?h = "\<lambda>r. num0 (r ''Sales Volume'')"
  let ?ps = "sort_values_desc (groupby_sum col (rows d))"
  let ?t = "if rows d = [] then DataFrame else agg_frame col ?ps"
  let ?u = "sum_list (map ?h (rows d))"
  let ?miss = "filter (\<lambda>r. r col = NaN) (rows d)"
  have ct: "clean_table d"
    using load_clean_clean [of parse raw] assms(1) by simp
  have g: "g d col = Inr ?t"
    by (rule g_clean_eq [OF ct assms(2)])
  from kpi_calc_clean [OF ct] obtain k where k: "kpi_calc d = Inr k" "total_units k = Num ?u"
    by simp
  have keys: "\<forall>r \<in> set (rows ?t). r col \<noteq> NaN"
  proof (cases "rows d = []")
    case True
    then show ?thesis by (simp add: DataFrame_def)
  next
    case False
    have "fst p \<noteq> NaN" if "p \<in> set ?ps" for p
    proof -
      from that have "fst p \<in> set (map fst (groupby_sum col (rows d)))"
        by (simp add: set_sort_values_desc)
      then show ?thesis
        by (simp only: keys_groupby_sum) (simp add: set_group_keys)
    qed
    then show ?thesis
      using False by (auto simp: agg_frame_def)
  qed
  have vol: "sum_list (volumes ?t) = sum_list (map ?h (filter (\<lambda>r. r col \<noteq> NaN) (rows d)))"
    by (simp add: volumes_agg_frame sum_list_sort_values_desc sum_list_groupby_sum)
      (simp add: volumes_def DataFrame_def)
  have split: "?u = sum_list (volumes ?t) + sum_list (map ?h ?miss)"
    unfolding vol by (rule sum_list_filter_split [where P = "\<lambda>r. r col \<noteq> NaN", simplified])
  have pos: "0 < ?h r" if "r \<in> set (rows d)" for r
    using clean_table_rows [OF ct that] by (auto simp: num0_def)
  have "0 \<le> sum_list (map ?h ?miss)"
    by (rule sum_list_nonneg) (auto dest: pos less_imp_le)
  then have le: "sum_list (volumes ?t) \<le> ?u"
    using split by linarith
  have lt: "sum_list (volumes ?t) < ?u" if "\<exists>r \<in> set (rows d). r col = NaN"
  proof -
    from that have "?miss \<noteq> []"
      by (auto simp: filter_empty_conv)
    then have "0 < sum_list (map ?h ?miss)"
      by (rule sum_list_pos_nonempty) (auto dest: pos)
    then show ?thesis
      using split by linarith
  qed
  from g k keys vol split le lt show ?thesis
    by blast
qed

theorem missing_keys_dropped_witness:
  "\<exists>d t k. load_clean example_parse example_sales = Inr d \<and>
     ''Product Position'' \<in> set (columns d) \<and>
     map (\<lambda>r. r ''Product Position'') (rows d) = [Str ''Shelf A'', NaN, Str ''Shelf B''] \<and>
     g d ''Product Position'' = Inr t \<and> kpi_calc d = Inr k \<and>
     map (\<lambda>r. r ''Product Position'') (rows t) = [Str ''Shelf B'', Str ''Shelf A''] \<and>
     sum_list (volumes t) = 8 \<and> total_units k = Num 12"
proof -
  let ?t = "agg_frame ''Product Position'' [(Str ''Shelf B'', 5), (Str ''Shelf A'', 3)]"
  have c: "''Product Position'' \<in> set (columns example_clean)"
    by (simp add: example_clean_columns)
  have "map (\<lambda>r. r ''Product Position'') (rows example_clean) =
      map (\<lambda>(v, p, k, n, r). k)
        (map (\<lambda>r. (r ''Sales Volume'', r ''price'', r ''Product Position'', r ''name'', r ''Revenue''))
          (rows example_clean))"
    by (simp add: comp_def)
  then have pp: "map (\<lambda>r. r ''Product Position'') (rows example_clean) =
      [Str ''Shelf A'', NaN, Str ''Shelf B'']"
    by (simp only: example_clean_rows) simp
  have "map (\<lambda>r. num0 (r ''Sales Volume'')) (rows example_clean) =
      map (\<lambda>(v, p, k, n, r). num0 v)
        (map (\<lambda>r. (r ''Sales Volume'', r ''price'', r ''Product Position'', r ''name'', r ''Revenue''))
          (rows example_clean))"
    by (simp add: comp_def)
  then have sv: "map (\<lambda>r. num0 (r ''Sales Volume'')) (rows example_clean) = [3, 4, 5]"
    by (simp only: example_clean_rows) (simp add: num0_def)
  have g: "g example_clean ''Product Position'' = Inr ?t"
    by (simp add: g_example_clean example_clean_columns example_clean_by_position
        sort_values_desc_def)
  have keys: "map (\<lambda>r. r ''Product Position'') (rows ?t) = [Str ''Shelf B'', Str ''Shelf A'']"
    by (simp add: agg_frame_def)
  from missing_keys_dropped [OF load_clean_example_sales c] obtain k u where
    k: "kpi_calc example_clean = Inr k" "total_units k = Num u"
      "u = sum_list (volumes ?t) +
        sum_list (map (\<lambda>r. num0 (r ''Sales Volume''))
          (filter (\<lambda>r. r ''Product Position'' = NaN) (rows example_clean)))"
    by (auto simp: g)
  have "total_units k = Num 12"
    using k(1) kpi_calc_clean [OF example_clean_table] by (auto simp: sv)
  then show ?thesis
    using c pp g keys k(1) by (simp add: load_clean_example_sales volumes_agg_frame)
qed

section \<open>The insights page\<close>

lemma g_nonempty_iloc0:
  assumes "g df col = Inr t" and "\<not> empty_df t"
  shows "iloc0 t col = Inr (hd (rows t) col)"
proof -
  from assms have "t \<noteq> DataFrame"
    by (auto simp: empty_df_def DataFrame_def)
  with assms(1) have "grouped df col = Inr t"
    by (auto simp: g_def split: if_splits)
  then have "col \<in> set (columns t)"
    by (auto simp: grouped_def agg_frame_def split: if_splits)
  moreover from assms(2) obtain r rs where "rows t = r # rs"
    by (cases "rows t") (auto simp: empty_df_def)
  ultimately show ?thesis
    by (simp add: iloc0_def)
qed

lemma insight_g:
  assumes "g df col = Inr t"
  shows "insight fmt pre suf t col =
           Inr (if empty_df t then [] else pre @ fmt (hd (rows t) col) @ suf)"
  using g_nonempty_iloc0 [OF assms] by (simp add: insight_def)

text \<open>
  Claim C9. For every input the three aggregate tables are computed and the insights
  list is built without error; the list holds the Product Position sentence exactly
  when that aggregate table is not empty, then the season sentence exactly when its
  table is not empty, then the origin sentence exactly when its table is not empty,
  each made from the first row of its table, and nothing else.
\<close>

theorem insights_omitted_when_empty:
  "\<exists>d bp bs bo. load_clean parse raw = Inr d \<and>
     g d ''Product Position'' = Inr bp \<and> g d ''season'' = Inr bs \<and> g d ''origin'' = Inr bo \<and>
     page_insights fmt bp bs bo =
       Inr ((if empty_df bp then []
             else [''Most sales come from the '' @ [CHR 0x27] @
                   fmt (hd (rows bp) ''Product Position'') @ [CHR 0x27] @ '' position.'']) @
            (if empty_df bs then [] else [''Top season: '' @ fmt (hd (rows bs) ''season'')]) @
            (if empty_df bo then [] else [''Strongest region: '' @ fmt (hd (rows bo) ''origin'')]))"
proof -
  obtain d where d: "load_clean parse raw = Inr d" "clean_table d"
    using load_clean_clean by blast
  then have "numeric d"
    by (simp add: clean_table_def)
  then obtain bp bs bo where
    g: "g d ''Product Position'' = Inr bp" "g d ''season'' = Inr bs" "g d ''origin'' = Inr bo"
    using numeric_g by blast
  have "page_insights fmt bp bs bo =
       Inr ((if empty_df bp then []
             else [''Most sales come from the '' @ [CHR 0x27] @
                   fmt (hd (rows bp) ''Product Position'') @ [CHR 0x27] @ '' position.'']) @
            (if empty_df bs then [] else [''Top season: '' @ fmt (hd (rows bs) ''season'')]) @
            (if empty_df bo then [] else [''Strongest region: '' @ fmt (hd (rows bo) ''origin'')]))"
    by (simp add: page_insights_def position_insight_def season_insight_def origin_insight_def
        insight_g [OF g(1)] insight_g [OF g(2)] insight_g [OF g(3)])
  with d(1) g show ?thesis
    by blast
qed

lemma example_season_clean_table: "clean_table example_season_clean"
  using load_clean_clean [of example_parse example_season_missing]
  by (simp add: load_clean_eq example_season_clean_def)

lemma example_season_columns:
  "''Product Position'' \<in> set (columns example_season_clean) \<and>
   ''season'' \<in> set (columns example_season_clean) \<and>
   ''origin'' \<in> set (columns example_season_clean)"
  using example_season_clean_table by (auto simp: clean_table_def expected_cols_def)

lemma example_season_groups:
  "groupby_sum ''Product Position'' (rows example_season_clean) = [(Str ''Shelf A'', 3)] \<and>
   groupby_sum ''season'' (rows example_season_clean) = [] \<and>
   groupby_sum ''origin'' (rows example_season_clean) = [(Str [], 3)]"
  by (simp add: example_season_clean_def ensure_cols_def expected_cols_def ensure_col_def
      example_season_missing_def coerce_rows_def fillna0_def to_numeric_def example_parse_def
      gt0_def mul_def groupby_sum_def group_keys_def group_sum_def sort_keys_def num0_def)

lemma example_season_nonempty: "rows example_season_clean \<noteq> []"
  by (simp add: example_season_clean_def ensure_cols_def expected_cols_def ensure_col_def
      example_season_missing_def coerce_rows_def fillna0_def to_numeric_def example_parse_def
      gt0_def)

theorem insights_omitted_when_empty_witness:
  "\<exists>d bp bs bo. load_clean example_parse example_season_missing = Inr d \<and>
     g d ''Product Position'' = Inr bp \<and> g d ''season'' = Inr bs \<and> g d ''origin'' = Inr bo \<and>
     \<not> empty_df bp \<and> empty_df bs \<and> \<not> empty_df bo \<and>
     page_insights example_fmt bp bs bo =
       Inr [''Most sales come from the '' @ [CHR 0x27] @ ''Shelf A'' @ [CHR 0x27] @ '' position.'',
            ''Strongest region: '']"
proof -
  let ?bp = "agg_frame ''Product Position'' [(Str ''Shelf A'', 3)]"
  let ?bs = "agg_frame ''season'' []"
  let ?bo = "agg_frame ''origin'' [(Str [], 3)]"
  have l: "load_clean example_parse example_season_missing = Inr example_season_clean"
    by (simp add: load_clean_eq example_season_clean_def)
  have g: "g example_season_clean ''Product Position'' = Inr ?bp"
    "g example_season_clean ''season'' = Inr ?bs"
    "g example_season_clean ''origin'' = Inr ?bo"
    using example_season_columns example_season_groups example_season_nonempty
    by (simp_all add: g_clean_eq [OF example_season_clean_table] sort_values_desc_def)
  have e: "\<not> empty_df ?bp" "empty_df ?bs" "\<not> empty_df ?bo"
    by (simp_all add: empty_df_def agg_frame_def)
  have h: "example_fmt (hd (rows ?bp) ''Product Position'') = ''Shelf A''"
    "example_fmt (hd (rows ?bo) ''origin'') = []"
    by (simp_all add: agg_frame_def example_fmt_def)
  from insights_omitted_when_empty [of example_parse example_season_missing example_fmt]
  have "page_insights example_fmt ?bp ?bs ?bo =
       Inr [''Most sales come from the '' @ [CHR 0x27] @ ''Shelf A'' @ [CHR 0x27] @ '' position.'',
            ''Strongest region: '']"
    unfolding l using e h by (auto simp: g)
  then show ?thesis
    using l g e by blast
qed

section \<open>The end-to-end example of the specification\<close>

text \<open>
  The three rows of the example: the second and third are dropped, the clean table is
  the first row with Revenue 20, total revenue is 20, total units 10, and the grouped
  sum by Product Position is the single row Shelf A with 10.
\<close>

lemma end_to_end_example:
  "\<exists>d k t. load_clean example_parse example_raw = Inr d \<and>
     map (\<lambda>r. (r ''Sales Volume'', r ''price'', r ''Product Position'', r ''Revenue'')) (rows d) =
       [(Num 10, Num 2, Str ''Shelf A'', Num 20)] \<and>
     kpi_calc d = Inr k \<and> total_revenue k = Num 20 \<and> total_units k = Num 10 \<and>
     g d ''Product Position'' = Inr t \<and>
     map (\<lambda>r. (r ''Product Position'', r ''Sales Volume'')) (rows t) = [(Str ''Shelf A'', Num 10)]"
proof -
  obtain d where d: "load_clean example_parse example_raw = Inr d" "clean_table d"
    using load_clean_clean by blast
  have r: "rows d = map with_revenue
      (filter positive (coerce_rows example_parse (rows (ensure_cols example_raw))))"
    using d(1) by (auto simp: load_clean_eq)
  have rs: "map (\<lambda>r. (r ''Sales Volume'', r ''price'', r ''Product Position'', r ''Revenue'')) (rows d) =
       [(Num 10, Num 2, Str ''Shelf A'', Num 20)]"
    unfolding r
    by (simp add: ensure_cols_def expected_cols_def ensure_col_def example_raw_def
        coerce_rows_def fillna0_def to_numeric_def example_parse_def gt0_def mul_def)
  have "map (\<lambda>r. num0 (r ''Revenue'')) (rows d) =
      map (\<lambda>(v, p, k, r). num0 r)
        (map (\<lambda>r. (r ''Sales Volume'', r ''price'', r ''Product Position'', r ''Revenue'')) (rows d))"
    "map (\<lambda>r. num0 (r ''Sales Volume'')) (rows d) =
      map (\<lambda>(v, p, k, r). num0 v)
        (map (\<lambda>r. (r ''Sales Volume'', r ''price'', r ''Product Position'', r ''Revenue'')) (rows d))"
    by (simp_all add: comp_def)
  then have sums: "map (\<lambda>r. num0 (r ''Revenue'')) (rows d) = [20]"
    "map (\<lambda>r. num0 (r ''Sales Volume'')) (rows d) = [10]"
    by (simp_all only: rs) (simp_all add: num0_def)
  obtain k where k: "kpi_calc d = Inr k" "total_revenue k = Num 20" "total_units k = Num 10"
    using kpi_calc_clean [OF d(2)] by (simp add: sums)
  have "''Product Position'' \<in> set (columns d)"
    using d(2) by (auto simp: clean_table_def expected_cols_def)
  moreover have "rows d \<noteq> []"
    using rs by auto
  moreover have "groupby_sum ''Product Position'' (rows d) = [(Str ''Shelf A'', 10)]"
    unfolding r
    by (simp add: ensure_cols_def expected_cols_def ensure_col_def example_raw_def
        coerce_rows_def fillna0_def to_numeric_def example_parse_def gt0_def mul_def
        groupby_sum_def group_keys_def group_sum_def sort_keys_def num0_def)
  ultimately have gd: "g d ''Product Position'' = Inr (agg_frame ''Product Position'' [(Str ''Shelf A'', 10)])"
    by (simp add: g_clean_eq [OF d(2)] sort_values_desc_def)
  have "map (\<lambda>r. (r ''Product Position'', r ''Sales Volume''))
      (rows (agg_frame ''Product Position'' [(Str ''Shelf A'', 10)])) = [(Str ''Shelf A'', Num 10)]"
    by (simp add: agg_frame_def)
  with gd d(1) rs k show ?thesis
    by (intro exI [of _ d] exI [of _ k]
        exI [of _ "agg_frame ''Product Position'' [(Str ''Shelf A'', 10)]"]) simp
qed

section \<open>The clean table on int64 and float64 columns\<close>





















end
